theory Spec2Isabelle
  imports Complex_Main
begin

section \<open>Python values and exceptions\<close>

text \<open>
  The client in \<^verbatim>\<open>src/main.py\<close> talks to a remote text-to-speech service through the
  \<^verbatim>\<open>requests\<close> library. The three functions \<^verbatim>\<open>submit_job\<close>, \<^verbatim>\<open>poll_for_completion\<close>
  and \<^verbatim>\<open>download_result\<close> are embedded below. What the library, the clock and the disk do
  is supplied by an environment; what the functions do with it is translated line by line.

  A parsed JSON body is a Python value. A finite float is given by its exact value.
\<close>

datatype pyval =
    PNone
  | PBool bool
  | PInt int
  | PFloat rat
  | PStr string
  | PList "pyval list"
  | PDict "(string \<times> pyval) list"


text \<open>
  Exceptions that reach the functions from outside. \<^verbatim>\<open>RequestException\<close> stands for
  \<^verbatim>\<open>requests.exceptions.RequestException\<close> and its subclasses, \<^verbatim>\<open>IOError\<close> for any other
  \<^verbatim>\<open>OSError\<close>, \<^verbatim>\<open>OtherException\<close> for the rest. The string is \<^verbatim>\<open>str(e)\<close>.
\<close>

datatype exn = RequestException string | IOError string | OtherException string

text \<open>
  \<^verbatim>\<open>data.get(key)\<close>: on a dict the value or \<^verbatim>\<open>None\<close>; any other JSON value has no
  attribute \<^verbatim>\<open>get\<close>.
\<close>

definition py_get :: "pyval \<Rightarrow> string \<Rightarrow> exn + pyval" where
  "py_get data k =
     (case data of
        PDict kvs \<Rightarrow> Inr (case map_of kvs k of None \<Rightarrow> PNone | Some v \<Rightarrow> v)
      | _ \<Rightarrow> Inl (OtherException ''AttributeError''))"

text \<open>
  Every \<^verbatim>\<open>raise Exception(f"...")\<close> of the source is one constructor, holding the values
  its message interpolates. \<^verbatim>\<open>Uncaught\<close> is an outside exception that no
  \<^verbatim>\<open>except\<close> clause of the function catches.
\<close>

datatype error =
    Missing_job_fields                 \<comment> \<open>line 36\<close>
  | Error_submitting_job string        \<comment> \<open>line 41: \<^verbatim>\<open>e\<close>\<close>
  | Timed_out string int               \<comment> \<open>line 74: \<^verbatim>\<open>job_id\<close>, \<^verbatim>\<open>MAX_WAIT_SECONDS\<close>\<close>
  | Unknown_status pyval pyval         \<comment> \<open>line 90: \<^verbatim>\<open>current_status\<close>, \<^verbatim>\<open>data\<close>\<close>
  | Downloaded_file_empty              \<comment> \<open>line 115\<close>
  | Error_downloading_file string      \<comment> \<open>line 120: \<^verbatim>\<open>e\<close>\<close>
  | Error_writing_file string          \<comment> \<open>line 122: \<^verbatim>\<open>e\<close>\<close>
  | Uncaught exn

type_synonym bytes = "char list"

text \<open>
  A response object, described by what its methods do when called:
  \<^verbatim>\<open>raise_for_status()\<close> raises or passes, \<^verbatim>\<open>json()\<close> raises or returns the parsed body,
  \<^verbatim>\<open>iter_content()\<close> yields \<open>chunks\<close> and then stops or raises \<open>stream_error\<close>.
\<close>

record response =
  raise_for_status :: "exn option"
  json :: "exn + pyval"
  chunks :: "bytes list"
  stream_error :: "exn option"

definition BASE_URL :: string where
  "BASE_URL = ''https://3a0ae9535730.ngrok-free.app''"

definition MAX_WAIT_SECONDS :: int where
  "MAX_WAIT_SECONDS = 5400"

section \<open>The polling interval\<close>

text \<open>Python's \<^verbatim>\<open>sub in s\<close> on strings: a left-to-right search for a contiguous match.\<close>

fun starts_with :: "'a list \<Rightarrow> 'a list \<Rightarrow> bool" where
  "starts_with [] s = True"
| "starts_with (p # ps) [] = False"
| "starts_with (p # ps) (c # cs) = (p = c \<and> starts_with ps cs)"

fun py_in :: "'a list \<Rightarrow> 'a list \<Rightarrow> bool" where
  "py_in sub [] = (sub = [])"
| "py_in sub (c # cs) = (starts_with sub (c # cs) \<or> py_in sub cs)"

text \<open>
  Lines 50 to 62 of \<^verbatim>\<open>poll_for_completion\<close>. The variable is first set to 15 and then
  assigned again in every branch.
\<close>

definition dynamic_poll_interval :: "string \<Rightarrow> int \<Rightarrow> int" where
  "dynamic_poll_interval language text_length =
     (let interval = (15::int);
          interval =
            (if py_in ''English'' language then
               (if text_length < 500 then 10 else 30)
             else
               (if text_length < 100 then 20
                else if text_length < 500 then 30
                else 45))
      in interval)"

section \<open>Effects\<close>

text \<open>
  What a run does to the outside, in order: the HTTP calls, the calls on the Streamlit
  placeholder and the sleeps. Each event holds the values the call is given; the
  placeholder events hold the values their message interpolates.
\<close>

datatype event =
    Post string "(string \<times> string) list"    \<comment> \<open>line 28: URL, form fields\<close>
  | Get string                                \<comment> \<open>line 77: URL\<close>
  | Placeholder_info_interval int             \<comment> \<open>line 64: interval\<close>
  | Placeholder_success real                  \<comment> \<open>line 84: elapsed time\<close>
  | Placeholder_info_processing real int      \<comment> \<open>line 87: elapsed time, interval\<close>
  | Placeholder_warning string int real       \<comment> \<open>line 94: \<^verbatim>\<open>e\<close>, interval, elapsed time\<close>
  | Sleep int                                 \<comment> \<open>lines 88 and 95: interval\<close>

text \<open>The interval an event sleeps for or reports, if it has one.\<close>

fun event_interval :: "event \<Rightarrow> int option" where
  "event_interval (Placeholder_info_interval d) = Some d"
| "event_interval (Placeholder_info_processing e d) = Some d"
| "event_interval (Placeholder_warning m d e) = Some d"
| "event_interval (Sleep d) = Some d"
| "event_interval (Post u f) = None"
| "event_interval (Get u) = None"
| "event_interval (Placeholder_success e) = None"

definition get_count :: "event list \<Rightarrow> nat" where
  "get_count tr = length (filter (\<lambda>ev. case ev of Get u \<Rightarrow> True | _ \<Rightarrow> False) tr)"


section \<open>Submitting a job\<close>



section \<open>Polling for completion\<close>

text \<open>
  The clock and the status endpoint: \<open>time_time w n\<close> is what the \<open>n\<close>-th call of
  \<^verbatim>\<open>time.time()\<close> returns, \<open>requests_get w n\<close> what the \<open>n\<close>-th call of
  \<^verbatim>\<open>requests.get\<close> does (both counted from 0). The difference of two readings is taken
  exactly.
\<close>

record world =
  time_time :: "nat \<Rightarrow> real"
  requests_get :: "nat \<Rightarrow> exn + response"

datatype flow = Continue | Break | Raise error

text \<open>The handler of line 92: warn, sleep and go round again; anything else passes.\<close>

definition poll_except :: "exn \<Rightarrow> int \<Rightarrow> real \<Rightarrow> flow \<times> event list" where
  "poll_except e interval elapsed_time =
     (case e of
        RequestException m \<Rightarrow>
          (Continue, [Placeholder_warning m interval elapsed_time, Sleep interval])
      | _ \<Rightarrow> (Raise (Uncaught e), []))"

text \<open>Lines 76 to 95, once \<^verbatim>\<open>requests.get\<close> has been called with outcome \<open>got\<close>.\<close>

definition poll_try :: "(exn + response) \<Rightarrow> int \<Rightarrow> real \<Rightarrow> flow \<times> event list" where
  "poll_try got interval elapsed_time =
     (case got of
        Inl e \<Rightarrow> poll_except e interval elapsed_time
      | Inr response \<Rightarrow>
          (case raise_for_status response of
             Some e \<Rightarrow> poll_except e interval elapsed_time
           | None \<Rightarrow>
               (case json response of
                  Inl e \<Rightarrow> poll_except e interval elapsed_time
                | Inr data \<Rightarrow>
                    (case py_get data ''status'' of
                       Inl e \<Rightarrow> poll_except e interval elapsed_time
                     | Inr current_status \<Rightarrow>
                         if current_status = PStr ''complete'' then
                           (Break, [Placeholder_success elapsed_time])
                         else if current_status = PStr ''processing'' then
                           (Continue,
                            [Placeholder_info_processing elapsed_time interval, Sleep interval])
                         else (Raise (Unknown_status current_status data), [])))))"

text \<open>One pass through the body of \<^verbatim>\<open>while True\<close> (lines 70 to 95), the \<open>i\<close>-th.\<close>

definition poll_iteration ::
  "world \<Rightarrow> string \<Rightarrow> string \<Rightarrow> int \<Rightarrow> real \<Rightarrow> nat \<Rightarrow> flow \<times> event list" where
  "poll_iteration w job_id status_check_url interval start_time i =
     (let elapsed_time = time_time w (Suc i) - start_time in
      if elapsed_time > real_of_int MAX_WAIT_SECONDS then
        (Raise (Timed_out job_id MAX_WAIT_SECONDS), [])
      else
        (case poll_try (requests_get w i) interval elapsed_time of
           (fl, evs) \<Rightarrow> (fl, Get status_check_url # evs)))"

text \<open>
  The loop, run for at most \<open>fuel\<close> passes. \<open>None\<close> says that the loop is still going
  when the fuel is used up; the events up to there are returned all the same.
\<close>

fun poll_loop ::
  "nat \<Rightarrow> world \<Rightarrow> string \<Rightarrow> string \<Rightarrow> int \<Rightarrow> real \<Rightarrow> nat \<Rightarrow> (error + unit) option \<times> event list"
  where
  "poll_loop 0 w job_id status_check_url interval start_time i = (None, [])"
| "poll_loop (Suc fuel) w job_id status_check_url interval start_time i =
     (case poll_iteration w job_id status_check_url interval start_time i of
        (Continue, evs) \<Rightarrow>
          (case poll_loop fuel w job_id status_check_url interval start_time (Suc i) of
             (res, rest) \<Rightarrow> (res, evs @ rest))
      | (Break, evs) \<Rightarrow> (Some (Inr ()), evs)
      | (Raise e, evs) \<Rightarrow> (Some (Inl e), evs))"

text \<open>Lines 43 to 95.\<close>

definition poll_for_completion ::
  "nat \<Rightarrow> world \<Rightarrow> string \<Rightarrow> string \<Rightarrow> string \<Rightarrow> int \<Rightarrow> (error + unit) option \<times> event list"
  where
  "poll_for_completion fuel w job_id status_url language text_length =
     (let interval = dynamic_poll_interval language text_length;
          start_time = time_time w 0;
          status_check_url = BASE_URL @ status_url
      in
        (case poll_loop fuel w job_id status_check_url interval start_time 0 of
           (res, evs) \<Rightarrow> (res, Placeholder_info_interval interval # evs)))"

section \<open>Downloading the result\<close>







section \<open>Sample environments\<close>

text \<open>Concrete servers, clocks and disks on which the definitions are run.\<close>

definition status_body :: "string \<Rightarrow> response" where
  "status_body s =
     \<lparr>raise_for_status = None, json = Inr (PDict [(''status'', PStr s)]),
      chunks = [], stream_error = None\<rparr>"

definition json_body :: "(string \<times> pyval) list \<Rightarrow> response" where
  "json_body kvs =
     \<lparr>raise_for_status = None, json = Inr (PDict kvs), chunks = [], stream_error = None\<rparr>"




text \<open>A clock that advances ten seconds per reading; two polls in progress, then done.\<close>

definition world_ppc :: world where
  "world_ppc =
     \<lparr>time_time = (\<lambda>n. 10 * real n),
      requests_get =
        (\<lambda>n. Inr (status_body (if n < 2 then ''processing'' else ''complete'')))\<rparr>"


text \<open>The first pass of the loop already reads a clock 6000 seconds after the start.\<close>

definition world_late :: world where
  "world_late =
     \<lparr>time_time = (\<lambda>n. if n = 0 then 0 else 6000),
      requests_get = (\<lambda>n. Inr (status_body ''processing''))\<rparr>"

definition world_unknown :: world where
  "world_unknown =
     \<lparr>time_time = (\<lambda>n. 10 * real n),
      requests_get = (\<lambda>n. Inr (status_body ''pending-review''))\<rparr>"

definition world_no_status :: world where
  "world_no_status =
     \<lparr>time_time = (\<lambda>n. 10 * real n),
      requests_get = (\<lambda>n. Inr (json_body [(''job'', PStr ''job-1'')]))\<rparr>"



section \<open>Properties of the polling interval\<close>

lemma starts_with_iff: "starts_with p s \<longleftrightarrow> (\<exists>suf. s = p @ suf)"
  by (induction p s rule: starts_with.induct) auto

lemma py_in_iff: "py_in sub s \<longleftrightarrow> (\<exists>pre suf. s = pre @ sub @ suf)"
proof (induction s)
  case Nil
  then show ?case by auto
next
  case (Cons c cs)
  show ?case
  proof
    assume "py_in sub (c # cs)"
    then consider "starts_with sub (c # cs)" | "py_in sub cs" by auto
    then show "\<exists>pre suf. c # cs = pre @ sub @ suf"
    proof cases
      case 1
      then obtain suf where "c # cs = sub @ suf" using starts_with_iff by blast
      then have "c # cs = [] @ sub @ suf" by simp
      then show ?thesis by blast
    next
      case 2
      then obtain pre suf where "cs = pre @ sub @ suf" using Cons.IH by blast
      then have "c # cs = (c # pre) @ sub @ suf" by simp
      then show ?thesis by blast
    qed
  next
    assume "\<exists>pre suf. c # cs = pre @ sub @ suf"
    then obtain pre suf where e: "c # cs = pre @ sub @ suf" by blast
    show "py_in sub (c # cs)"
    proof (cases pre)
      case Nil
      with e have "starts_with sub (c # cs)" using starts_with_iff by fastforce
      then show ?thesis by simp
    next
      case (Cons d pre')
      with e have "cs = pre' @ sub @ suf" by simp
      then have "py_in sub cs" using Cons.IH by blast
      then show ?thesis by simp
    qed
  qed
qed

text \<open>
  C1. The interval is a function of the language label and the text length alone, and it
  follows the table: for a label in which \<^verbatim>\<open>"English" in language\<close> holds, a length below
  500 gives 10 and a length of 500 or more gives 30; for every other label a length below
  100 gives 20, a length from 100 to 499 gives 30 and a length of 500 or more gives 45.
\<close>

theorem interval_table:
  "(py_in ''English'' language \<and> n < 500 \<longrightarrow> dynamic_poll_interval language n = 10) \<and>
   (py_in ''English'' language \<and> 500 \<le> n \<longrightarrow> dynamic_poll_interval language n = 30) \<and>
   (\<not> py_in ''English'' language \<and> n < 100 \<longrightarrow> dynamic_poll_interval language n = 20) \<and>
   (\<not> py_in ''English'' language \<and> 100 \<le> n \<and> n < 500 \<longrightarrow>
      dynamic_poll_interval language n = 30) \<and>
   (\<not> py_in ''English'' language \<and> 500 \<le> n \<longrightarrow> dynamic_poll_interval language n = 45)"
  by (simp add: dynamic_poll_interval_def)

theorem interval_table_witness:
  "py_in ''English'' ''English (en)'' \<and> \<not> py_in ''English'' ''Hindi (hi)'' \<and>
   dynamic_poll_interval ''English (en)'' 499 = 10 \<and>
   dynamic_poll_interval ''English (en)'' 500 = 30 \<and>
   dynamic_poll_interval ''Hindi (hi)'' 99 = 20 \<and>
   dynamic_poll_interval ''Hindi (hi)'' 100 = 30 \<and>
   dynamic_poll_interval ''Hindi (hi)'' 499 = 30 \<and>
   dynamic_poll_interval ''Hindi (hi)'' 500 = 45"
  using interval_table [of "''English (en)''" 499] interval_table [of "''English (en)''" 500]
    interval_table [of "''Hindi (hi)''" 99] interval_table [of "''Hindi (hi)''" 100]
    interval_table [of "''Hindi (hi)''" 499] interval_table [of "''Hindi (hi)''" 500]
  by simp

text \<open>
  C8. The English table is chosen exactly when the label has \<^verbatim>\<open>English\<close> as a contiguous
  substring, wherever it stands; every other label, \<^verbatim>\<open>Other\<close> included, gets the second
  table.
\<close>

theorem english_branch_is_substring:
  "dynamic_poll_interval language n =
     (if \<exists>pre suf. language = pre @ ''English'' @ suf
      then (if n < 500 then 10 else 30)
      else (if n < 100 then 20 else if n < 500 then 30 else 45))"
  unfolding dynamic_poll_interval_def py_in_iff [symmetric] by simp

section \<open>Properties of the polling loop\<close>

lemma interval_in_table: "dynamic_poll_interval language n \<in> {10, 20, 30, 45}"
  by (simp add: dynamic_poll_interval_def)

lemma poll_iteration_timeout:
  assumes "real_of_int MAX_WAIT_SECONDS < time_time w (Suc i) - st"
  shows "poll_iteration w job_id url d st i = (Raise (Timed_out job_id MAX_WAIT_SECONDS), [])"
  using assms by (simp add: poll_iteration_def Let_def)

lemma poll_iteration_in_time:
  assumes "time_time w (Suc i) - st \<le> real_of_int MAX_WAIT_SECONDS"
  shows "poll_iteration w job_id url d st i =
     (fst (poll_try (requests_get w i) d (time_time w (Suc i) - st)),
      Get url # snd (poll_try (requests_get w i) d (time_time w (Suc i) - st)))"
proof -
  from assms have "\<not> real_of_int MAX_WAIT_SECONDS < time_time w (Suc i) - st" by simp
  then show ?thesis by (simp add: poll_iteration_def Let_def split: prod.splits)
qed

lemma poll_try_status:
  assumes "raise_for_status r = None" and "json r = Inr (PDict kvs)"
  shows "poll_try (Inr r) d e =
     (let current_status = (case map_of kvs ''status'' of None \<Rightarrow> PNone | Some v \<Rightarrow> v) in
      if current_status = PStr ''complete'' then (Break, [Placeholder_success e])
      else if current_status = PStr ''processing'' then
        (Continue, [Placeholder_info_processing e d, Sleep d])
      else (Raise (Unknown_status current_status (PDict kvs)), []))"
  using assms by (simp add: poll_try_def py_get_def Let_def)


lemma poll_loop_continue:
  assumes "poll_iteration w job_id url d st i = (Continue, evs)"
  shows "poll_loop (Suc fuel) w job_id url d st i =
     (fst (poll_loop fuel w job_id url d st (Suc i)),
      evs @ snd (poll_loop fuel w job_id url d st (Suc i)))"
  using assms by (simp split: prod.splits)

lemma poll_loop_break:
  assumes "poll_iteration w job_id url d st i = (Break, evs)"
  shows "poll_loop (Suc fuel) w job_id url d st i = (Some (Inr ()), evs)"
  using assms by simp

lemma poll_loop_raise:
  assumes "poll_iteration w job_id url d st i = (Raise e, evs)"
  shows "poll_loop (Suc fuel) w job_id url d st i = (Some (Inl e), evs)"
  using assms by simp

declare poll_loop.simps [simp del]

lemma poll_loop_status_raise:
  assumes "time_time w (Suc i) - st \<le> real_of_int MAX_WAIT_SECONDS"
    and "requests_get w i = Inr r" and "raise_for_status r = None"
    and "json r = Inr (PDict kvs)"
    and "(case map_of kvs ''status'' of None \<Rightarrow> PNone | Some v \<Rightarrow> v) = s"
    and "s \<noteq> PStr ''complete''" and "s \<noteq> PStr ''processing''"
  shows "poll_loop (Suc fuel) w job_id url d st i =
     (Some (Inl (Unknown_status s (PDict kvs))), [Get url])"
proof -
  have "poll_try (requests_get w i) d (time_time w (Suc i) - st) =
      (Raise (Unknown_status s (PDict kvs)), [])"
    unfolding assms(2) poll_try_status [OF assms(3) assms(4)]
    using assms(5,6,7) by (simp add: Let_def)
  then have "poll_iteration w job_id url d st i =
      (Raise (Unknown_status s (PDict kvs)), [Get url])"
    using poll_iteration_in_time [OF assms(1)] by simp
  then show ?thesis by (rule poll_loop_raise)
qed

lemma poll_loop_processing_step:
  assumes "time_time w (Suc i) - st \<le> real_of_int MAX_WAIT_SECONDS"
    and "requests_get w i = Inr r" and "raise_for_status r = None"
    and "json r = Inr (PDict kvs)"
    and "map_of kvs ''status'' = Some (PStr ''processing'')"
  shows "poll_loop (Suc fuel) w job_id url d st i =
     (fst (poll_loop fuel w job_id url d st (Suc i)),
      [Get url, Placeholder_info_processing (time_time w (Suc i) - st) d, Sleep d] @
      snd (poll_loop fuel w job_id url d st (Suc i)))"
proof -
  have "poll_try (requests_get w i) d (time_time w (Suc i) - st) =
      (Continue, [Placeholder_info_processing (time_time w (Suc i) - st) d, Sleep d])"
    unfolding assms(2) poll_try_status [OF assms(3) assms(4)]
    using assms(5) by (simp add: Let_def)
  then have "poll_iteration w job_id url d st i =
      (Continue, [Get url, Placeholder_info_processing (time_time w (Suc i) - st) d, Sleep d])"
    using poll_iteration_in_time [OF assms(1)] by simp
  then show ?thesis by (rule poll_loop_continue)
qed

lemma poll_loop_complete_step:
  assumes "time_time w (Suc i) - st \<le> real_of_int MAX_WAIT_SECONDS"
    and "requests_get w i = Inr r" and "raise_for_status r = None"
    and "json r = Inr (PDict kvs)"
    and "map_of kvs ''status'' = Some (PStr ''complete'')"
  shows "poll_loop (Suc fuel) w job_id url d st i =
     (Some (Inr ()), [Get url, Placeholder_success (time_time w (Suc i) - st)])"
proof -
  have "poll_try (requests_get w i) d (time_time w (Suc i) - st) =
      (Break, [Placeholder_success (time_time w (Suc i) - st)])"
    unfolding assms(2) poll_try_status [OF assms(3) assms(4)]
    using assms(5) by (simp add: Let_def)
  then have "poll_iteration w job_id url d st i =
      (Break, [Get url, Placeholder_success (time_time w (Suc i) - st)])"
    using poll_iteration_in_time [OF assms(1)] by simp
  then show ?thesis by (rule poll_loop_break)
qed



lemma poll_loop_ppc:
  assumes "time_time w (Suc 0) - st \<le> real_of_int MAX_WAIT_SECONDS"
    and "time_time w (Suc (Suc 0)) - st \<le> real_of_int MAX_WAIT_SECONDS"
    and "time_time w (Suc (Suc (Suc 0))) - st \<le> real_of_int MAX_WAIT_SECONDS"
    and "requests_get w 0 = Inr r0" and "raise_for_status r0 = None"
    and "json r0 = Inr (PDict kvs0)"
    and "map_of kvs0 ''status'' = Some (PStr ''processing'')"
    and "requests_get w (Suc 0) = Inr r1" and "raise_for_status r1 = None"
    and "json r1 = Inr (PDict kvs1)"
    and "map_of kvs1 ''status'' = Some (PStr ''processing'')"
    and "requests_get w (Suc (Suc 0)) = Inr r2" and "raise_for_status r2 = None"
    and "json r2 = Inr (PDict kvs2)"
    and "map_of kvs2 ''status'' = Some (PStr ''complete'')"
  shows "poll_loop (Suc (Suc (Suc fuel))) w job_id url d st 0 =
     (Some (Inr ()),
      [Get url, Placeholder_info_processing (time_time w (Suc 0) - st) d, Sleep d,
       Get url, Placeholder_info_processing (time_time w (Suc (Suc 0)) - st) d, Sleep d,
       Get url, Placeholder_success (time_time w (Suc (Suc (Suc 0))) - st)])"
  unfolding poll_loop_processing_step [OF assms(1) assms(4) assms(5) assms(6) assms(7)]
    poll_loop_processing_step [OF assms(2) assms(8) assms(9) assms(10) assms(11)]
    poll_loop_complete_step [OF assms(3) assms(12) assms(13) assms(14) assms(15)]
  by simp

lemma poll_except_intervals:
  assumes "ev \<in> set (snd (poll_except x d e))" and "event_interval ev = Some d'"
  shows "d' = d"
  using assms by (cases x) (auto simp: poll_except_def)

lemma poll_try_intervals:
  assumes "ev \<in> set (snd (poll_try got d e))" and "event_interval ev = Some d'"
  shows "d' = d"
  using assms poll_except_intervals [of ev _ d e d']
  by (auto simp: poll_try_def split: sum.splits option.splits if_splits)

lemma poll_iteration_intervals:
  assumes "ev \<in> set (snd (poll_iteration w job_id url d st i))"
    and "event_interval ev = Some d'"
  shows "d' = d"
proof (cases "real_of_int MAX_WAIT_SECONDS < time_time w (Suc i) - st")
  case True
  with assms show ?thesis by (simp add: poll_iteration_timeout)
next
  case False
  then have "time_time w (Suc i) - st \<le> real_of_int MAX_WAIT_SECONDS" by simp
  from poll_iteration_in_time [OF this] assms
  have "ev = Get url \<or> ev \<in> set (snd (poll_try (requests_get w i) d (time_time w (Suc i) - st)))"
    by simp
  with assms(2) show ?thesis using poll_try_intervals by auto
qed

lemma poll_loop_intervals:
  assumes "ev \<in> set (snd (poll_loop fuel w job_id url d st i))"
    and "event_interval ev = Some d'"
  shows "d' = d"
  using assms
proof (induction fuel arbitrary: i)
  case 0
  then show ?case by (simp add: poll_loop.simps)
next
  case (Suc fuel)
  obtain fl evs where it: "poll_iteration w job_id url d st i = (fl, evs)"
    by (cases "poll_iteration w job_id url d st i")
  have here: "ev \<in> set evs \<Longrightarrow> d' = d"
    using poll_iteration_intervals [of ev w job_id url d st i d'] it Suc.prems(2) by simp
  show ?case
  proof (cases fl)
    case Continue
    with it Suc.prems(1)
    have "ev \<in> set evs \<or> ev \<in> set (snd (poll_loop fuel w job_id url d st (Suc i)))"
      by (simp add: poll_loop_continue)
    then show ?thesis using here Suc.IH Suc.prems(2) by blast
  next
    case Break
    with it Suc.prems(1) have "ev \<in> set evs" by (simp add: poll_loop_break)
    then show ?thesis by (rule here)
  next
    case (Raise x)
    with it Suc.prems(1) have "ev \<in> set evs" by (simp add: poll_loop_raise)
    then show ?thesis by (rule here)
  qed
qed

section \<open>Claims about the polling loop\<close>

text \<open>
  C2 (as amended). In every pass of the loop the elapsed time is compared with
  \<open>MAX_WAIT_SECONDS\<close> before anything else. When it is larger, the loop ends there with
  the timeout exception, which holds the job id and the ceiling \<open>MAX_WAIT_SECONDS\<close>; the
  pass issues no request, whatever the status endpoint would have answered and however
  much fuel is left.
\<close>

theorem timeout_before_request:
  assumes "time_time w (Suc i) - start_time > real_of_int MAX_WAIT_SECONDS"
  shows "poll_loop (Suc fuel) w job_id status_check_url interval start_time i =
     (Some (Inl (Timed_out job_id MAX_WAIT_SECONDS)), [])"
  by (rule poll_loop_raise [OF poll_iteration_timeout [OF assms]])

theorem timeout_before_request_witness:
  "time_time world_late (Suc 0) - time_time world_late 0 > real_of_int MAX_WAIT_SECONDS \<and>
   poll_loop (Suc 0) world_late ''job-1'' ''/status/job-1'' 10 (time_time world_late 0) 0 =
     (Some (Inl (Timed_out ''job-1'' MAX_WAIT_SECONDS)), [])"
proof -
  have h: "time_time world_late (Suc 0) - time_time world_late 0 > real_of_int MAX_WAIT_SECONDS"
    by (simp add: world_late_def MAX_WAIT_SECONDS_def)
  show ?thesis by (rule conjI [OF h timeout_before_request [OF h]])
qed

text \<open>
  C2 as stated says that the timeout exception holds the elapsed time. With 6000 seconds
  elapsed at the first pass, the exception holds 5400.
\<close>

theorem timeout_reports_ceiling_counterexample:
  "time_time world_late (Suc 0) - time_time world_late 0 = 6000 \<and>
   fst (poll_for_completion (Suc 0) world_late ''job-1'' ''/status/job-1'' ''English (en)'' 10) =
     Some (Inl (Timed_out ''job-1'' 5400)) \<and>
   fst (poll_for_completion (Suc 0) world_late ''job-1'' ''/status/job-1'' ''English (en)'' 10) \<noteq>
     Some (Inl (Timed_out ''job-1'' 6000))"
  by (simp add: poll_for_completion_def poll_loop.simps poll_iteration_def world_late_def
      MAX_WAIT_SECONDS_def Let_def)

text \<open>
  C3. When a pass is in time and the status endpoint answers with a JSON object whose
  \<^verbatim>\<open>status\<close> is neither \<^verbatim>\<open>"complete"\<close> nor \<^verbatim>\<open>"processing"\<close>, the loop ends there with the
  unknown-status exception, which holds that value and the whole body. The pass has made
  its one request and nothing follows it, however much fuel is left.
\<close>

theorem unknown_status_is_terminal:
  assumes "time_time w (Suc i) - start_time \<le> real_of_int MAX_WAIT_SECONDS"
    and "requests_get w i = Inr r" and "raise_for_status r = None"
    and "json r = Inr (PDict kvs)"
    and "map_of kvs ''status'' = Some v"
    and "v \<noteq> PStr ''complete''" and "v \<noteq> PStr ''processing''"
  shows "poll_loop (Suc fuel) w job_id status_check_url interval start_time i =
     (Some (Inl (Unknown_status v (PDict kvs))), [Get status_check_url])"
proof -
  from assms(5) have "(case map_of kvs ''status'' of None \<Rightarrow> PNone | Some x \<Rightarrow> x) = v"
    by simp
  from poll_loop_status_raise [OF assms(1) assms(2) assms(3) assms(4) this assms(6) assms(7)]
  show ?thesis .
qed

theorem unknown_status_is_terminal_witness:
  "time_time world_unknown (Suc 0) - time_time world_unknown 0 \<le> real_of_int MAX_WAIT_SECONDS \<and>
   requests_get world_unknown 0 = Inr (status_body ''pending-review'') \<and>
   raise_for_status (status_body ''pending-review'') = None \<and>
   json (status_body ''pending-review'') = Inr (PDict [(''status'', PStr ''pending-review'')]) \<and>
   map_of [(''status'', PStr ''pending-review'')] ''status'' = Some (PStr ''pending-review'') \<and>
   PStr ''pending-review'' \<noteq> PStr ''complete'' \<and>
   PStr ''pending-review'' \<noteq> PStr ''processing'' \<and>
   poll_loop (Suc (Suc 0)) world_unknown ''job-1'' ''/status/job-1'' 10
       (time_time world_unknown 0) 0 =
     (Some (Inl (Unknown_status (PStr ''pending-review'')
        (PDict [(''status'', PStr ''pending-review'')]))), [Get ''/status/job-1''])"
proof -
  have h1: "time_time world_unknown (Suc 0) - time_time world_unknown 0
      \<le> real_of_int MAX_WAIT_SECONDS"
    by (simp add: world_unknown_def MAX_WAIT_SECONDS_def)
  have h2: "requests_get world_unknown 0 = Inr (status_body ''pending-review'')"
    by (simp add: world_unknown_def)
  have h3: "raise_for_status (status_body ''pending-review'') = None"
    by (simp add: status_body_def)
  have h4: "json (status_body ''pending-review'') =
      Inr (PDict [(''status'', PStr ''pending-review'')])"
    by (simp add: status_body_def)
  have h5: "map_of [(''status'', PStr ''pending-review'')] ''status'' =
      Some (PStr ''pending-review'')"
    by simp
  have h6: "PStr ''pending-review'' \<noteq> PStr ''complete''" by simp
  have h7: "PStr ''pending-review'' \<noteq> PStr ''processing''" by simp
  show ?thesis
    by (intro conjI, rule h1, rule h2, rule h3, rule h4, rule h5, rule h6, rule h7,
        rule unknown_status_is_terminal [OF h1 h2 h3 h4 h5 h6 h7])
qed

text \<open>
  C10. When a pass is in time and the status endpoint answers with a JSON object that has
  no \<^verbatim>\<open>status\<close> key, \<^verbatim>\<open>data.get("status")\<close> is \<^verbatim>\<open>None\<close> and the loop ends there with the
  unknown-status exception, holding \<^verbatim>\<open>None\<close> and the whole body. The answer is not
  retried.
\<close>

theorem missing_status_is_unknown:
  assumes "time_time w (Suc i) - start_time \<le> real_of_int MAX_WAIT_SECONDS"
    and "requests_get w i = Inr r" and "raise_for_status r = None"
    and "json r = Inr (PDict kvs)"
    and "map_of kvs ''status'' = None"
  shows "poll_loop (Suc fuel) w job_id status_check_url interval start_time i =
     (Some (Inl (Unknown_status PNone (PDict kvs))), [Get status_check_url])"
proof -
  from assms(5) have c: "(case map_of kvs ''status'' of None \<Rightarrow> PNone | Some x \<Rightarrow> x) = PNone"
    by simp
  have n1: "PNone \<noteq> PStr ''complete''" by simp
  have n2: "PNone \<noteq> PStr ''processing''" by simp
  from poll_loop_status_raise [OF assms(1) assms(2) assms(3) assms(4) c n1 n2]
  show ?thesis .
qed

theorem missing_status_is_unknown_witness:
  "time_time world_no_status (Suc 0) - time_time world_no_status 0
     \<le> real_of_int MAX_WAIT_SECONDS \<and>
   requests_get world_no_status 0 = Inr (json_body [(''job'', PStr ''job-1'')]) \<and>
   raise_for_status (json_body [(''job'', PStr ''job-1'')]) = None \<and>
   json (json_body [(''job'', PStr ''job-1'')]) = Inr (PDict [(''job'', PStr ''job-1'')]) \<and>
   map_of [(''job'', PStr ''job-1'')] ''status'' = None \<and>
   poll_loop (Suc (Suc 0)) world_no_status ''job-1'' ''/status/job-1'' 10
       (time_time world_no_status 0) 0 =
     (Some (Inl (Unknown_status PNone (PDict [(''job'', PStr ''job-1'')]))),
      [Get ''/status/job-1''])"
proof -
  have h1: "time_time world_no_status (Suc 0) - time_time world_no_status 0
      \<le> real_of_int MAX_WAIT_SECONDS"
    by (simp add: world_no_status_def MAX_WAIT_SECONDS_def)
  have h2: "requests_get world_no_status 0 = Inr (json_body [(''job'', PStr ''job-1'')])"
    by (simp add: world_no_status_def)
  have h3: "raise_for_status (json_body [(''job'', PStr ''job-1'')]) = None"
    by (simp add: json_body_def)
  have h4: "json (json_body [(''job'', PStr ''job-1'')]) =
      Inr (PDict [(''job'', PStr ''job-1'')])"
    by (simp add: json_body_def)
  have h5: "map_of [(''job'', PStr ''job-1'')] ''status'' = None" by simp
  show ?thesis
    by (intro conjI, rule h1, rule h2, rule h3, rule h4, rule h5,
        rule missing_status_is_unknown [OF h1 h2 h3 h4 h5])
qed

text \<open>
  C5. When the first two polls find \<^verbatim>\<open>"processing"\<close> and the third finds \<^verbatim>\<open>"complete"\<close>, all
  three in time, the call returns normally, for every language label and text length and
  so for every interval. It has made exactly three requests to the status endpoint, and
  its last event is the success message with the elapsed time of the third pass.
\<close>

theorem three_polls_then_success:
  assumes "time_time w (Suc 0) - time_time w 0 \<le> real_of_int MAX_WAIT_SECONDS"
    and "time_time w (Suc (Suc 0)) - time_time w 0 \<le> real_of_int MAX_WAIT_SECONDS"
    and "time_time w (Suc (Suc (Suc 0))) - time_time w 0 \<le> real_of_int MAX_WAIT_SECONDS"
    and "requests_get w 0 = Inr r0" and "raise_for_status r0 = None"
    and "json r0 = Inr (PDict kvs0)"
    and "map_of kvs0 ''status'' = Some (PStr ''processing'')"
    and "requests_get w (Suc 0) = Inr r1" and "raise_for_status r1 = None"
    and "json r1 = Inr (PDict kvs1)"
    and "map_of kvs1 ''status'' = Some (PStr ''processing'')"
    and "requests_get w (Suc (Suc 0)) = Inr r2" and "raise_for_status r2 = None"
    and "json r2 = Inr (PDict kvs2)"
    and "map_of kvs2 ''status'' = Some (PStr ''complete'')"
  shows "poll_for_completion (Suc (Suc (Suc fuel))) w job_id status_url language n =
     (Some (Inr ()),
      [Placeholder_info_interval (dynamic_poll_interval language n),
       Get (BASE_URL @ status_url),
       Placeholder_info_processing (time_time w (Suc 0) - time_time w 0)
         (dynamic_poll_interval language n),
       Sleep (dynamic_poll_interval language n),
       Get (BASE_URL @ status_url),
       Placeholder_info_processing (time_time w (Suc (Suc 0)) - time_time w 0)
         (dynamic_poll_interval language n),
       Sleep (dynamic_poll_interval language n),
       Get (BASE_URL @ status_url),
       Placeholder_success (time_time w (Suc (Suc (Suc 0))) - time_time w 0)]) \<and>
     get_count (snd (poll_for_completion (Suc (Suc (Suc fuel))) w job_id status_url language n))
       = 3"
  by (simp add: poll_for_completion_def Let_def poll_loop_ppc [OF assms] get_count_def)

theorem three_polls_then_success_witness:
  "requests_get world_ppc 0 = Inr (status_body ''processing'') \<and>
   requests_get world_ppc (Suc 0) = Inr (status_body ''processing'') \<and>
   requests_get world_ppc (Suc (Suc 0)) = Inr (status_body ''complete'') \<and>
   time_time world_ppc (Suc (Suc (Suc 0))) - time_time world_ppc 0
     \<le> real_of_int MAX_WAIT_SECONDS \<and>
   fst (poll_for_completion (Suc (Suc (Suc 0))) world_ppc ''job-1'' ''/status/job-1''
     ''Hindi (hi)'' 120) = Some (Inr ()) \<and>
   get_count (snd (poll_for_completion (Suc (Suc (Suc 0))) world_ppc ''job-1'' ''/status/job-1''
     ''Hindi (hi)'' 120)) = 3"
proof -
  have t1: "time_time world_ppc (Suc 0) - time_time world_ppc 0 \<le> real_of_int MAX_WAIT_SECONDS"
    by (simp add: world_ppc_def MAX_WAIT_SECONDS_def)
  have t2: "time_time world_ppc (Suc (Suc 0)) - time_time world_ppc 0
      \<le> real_of_int MAX_WAIT_SECONDS"
    by (simp add: world_ppc_def MAX_WAIT_SECONDS_def)
  have t3: "time_time world_ppc (Suc (Suc (Suc 0))) - time_time world_ppc 0
      \<le> real_of_int MAX_WAIT_SECONDS"
    by (simp add: world_ppc_def MAX_WAIT_SECONDS_def)
  have g0: "requests_get world_ppc 0 = Inr (status_body ''processing'')"
    by (simp add: world_ppc_def)
  have g1: "requests_get world_ppc (Suc 0) = Inr (status_body ''processing'')"
    by (simp add: world_ppc_def)
  have g2: "requests_get world_ppc (Suc (Suc 0)) = Inr (status_body ''complete'')"
    by (simp add: world_ppc_def)
  have s: "raise_for_status (status_body x) = None" for x
    by (simp add: status_body_def)
  have j: "json (status_body x) = Inr (PDict [(''status'', PStr x)])" for x
    by (simp add: status_body_def)
  have m: "map_of [(''status'', PStr x)] ''status'' = Some (PStr x)" for x
    by simp
  note run = three_polls_then_success [OF t1 t2 t3 g0 s j m g1 s j m g2 s j m]
  have r: "fst (poll_for_completion (Suc (Suc (Suc 0))) world_ppc ''job-1'' ''/status/job-1''
      ''Hindi (hi)'' 120) = Some (Inr ())"
    by (simp add: run [THEN conjunct1])
  show ?thesis
    by (intro conjI, rule g0, rule g1, rule g2, rule t3, rule r, rule run [THEN conjunct2])
qed



text \<open>
  C9. The interval is always one of 10, 20, 30 and 45 and never the 15 the variable is
  first set to. Every event of a run that sleeps for an interval or reports one, however
  long the run, carries that computed interval.
\<close>

theorem polled_interval_in_table:
  "dynamic_poll_interval language n \<in> {10, 20, 30, 45} \<and>
   dynamic_poll_interval language n \<noteq> 15 \<and>
   (\<forall>ev \<in> set (snd (poll_for_completion fuel w job_id status_url language n)).
      \<forall>d. event_interval ev = Some d \<longrightarrow> d = dynamic_poll_interval language n)"
proof -
  have a: "dynamic_poll_interval language n \<in> {10, 20, 30, 45}"
    by (rule interval_in_table)
  then have b: "dynamic_poll_interval language n \<noteq> 15" by auto
  have c: "\<forall>ev \<in> set (snd (poll_for_completion fuel w job_id status_url language n)).
      \<forall>d. event_interval ev = Some d \<longrightarrow> d = dynamic_poll_interval language n"
  proof (intro ballI allI impI)
    fix ev d
    assume mem: "ev \<in> set (snd (poll_for_completion fuel w job_id status_url language n))"
      and e: "event_interval ev = Some d"
    from mem have "ev = Placeholder_info_interval (dynamic_poll_interval language n) \<or>
        ev \<in> set (snd (poll_loop fuel w job_id (BASE_URL @ status_url)
          (dynamic_poll_interval language n) (time_time w 0) 0))"
      by (simp add: poll_for_completion_def Let_def case_prod_beta)
    then show "d = dynamic_poll_interval language n"
    proof
      assume "ev = Placeholder_info_interval (dynamic_poll_interval language n)"
      with e show ?thesis by simp
    next
      assume "ev \<in> set (snd (poll_loop fuel w job_id (BASE_URL @ status_url)
          (dynamic_poll_interval language n) (time_time w 0) 0))"
      from poll_loop_intervals [OF this e] show ?thesis .
    qed
  qed
  from a b c show ?thesis by (intro conjI)
qed

theorem polled_interval_in_table_witness:
  "Sleep 10 \<in> set (snd (poll_for_completion (Suc (Suc (Suc 0))) world_ppc ''job-1''
     ''/status/job-1'' ''English (en)'' 48)) \<and>
   event_interval (Sleep 10) = Some 10 \<and>
   dynamic_poll_interval ''English (en)'' 48 = 10 \<and>
   dynamic_poll_interval ''English (en)'' 48 \<noteq> 15"
proof -
  have mem: "Sleep 10 \<in> set (snd (poll_for_completion (Suc (Suc (Suc 0))) world_ppc ''job-1''
      ''/status/job-1'' ''English (en)'' 48))"
    by (simp add: poll_for_completion_def Let_def poll_loop.simps poll_iteration_def
        poll_try_def py_get_def world_ppc_def status_body_def MAX_WAIT_SECONDS_def
        dynamic_poll_interval_def)
  have e: "event_interval (Sleep 10) = Some 10" by simp
  note t = polled_interval_in_table [where language = "''English (en)''" and n = 48
      and fuel = "Suc (Suc (Suc 0))" and w = world_ppc and job_id = "''job-1''"
      and status_url = "''/status/job-1''"]
  from t [THEN conjunct2, THEN conjunct2, THEN bspec, OF mem, THEN spec, THEN mp, OF e]
  have v: "dynamic_poll_interval ''English (en)'' 48 = 10" by simp
  from mem e v t [THEN conjunct2, THEN conjunct1] show ?thesis by (intro conjI)
qed

section \<open>Claims about submission\<close>








section \<open>Claims about the download\<close>










end
